theory Spec2Isabelle
  imports Main "HOL-Library.Word"
begin

section \<open>The XBee AT-command session of XBee\_AT\_SerialBreak.ino\<close>

text \<open>
  The sketch talks to an XBee radio over the ClearCore XBee serial port. Its own functions
  (\<open>DeviceSpeed\<close>, \<open>AtModeDefault\<close>, \<open>atCommandSend\<close>, \<open>atRspReceive\<close>, \<open>exitFail\<close>)
  are embedded below, one definition per function, in the order of the calls they make.
  The platform they call (the serial port, the millisecond counter, \<open>delay\<close>, the USB
  console) is not part of the sketch; it is represented by a record of the machine's state
  and one small function per call.
\<close>

subsection \<open>Constants of the sketch\<close>

abbreviation NUL :: char where "NUL \<equiv> CHR 0x00"
abbreviation CR :: char where "CR \<equiv> CHR 0x0D"

text \<open>\<^verbatim>\<open>#define TIMEOUT 10000\<close>; it is only ever compared with \<^verbatim>\<open>uint32_t\<close> values.\<close>

definition TIMEOUT :: "32 word" where
  "TIMEOUT = 10000"

text \<open>\<^verbatim>\<open>#define OK_MSG "OK\0"\<close>, \<^verbatim>\<open>#define ERR_MSG "ERROR\0"\<close>: the array of a string literal,
  with the terminator the compiler appends.\<close>

definition OK_MSG :: string where
  "OK_MSG = ''OK'' @ [NUL, NUL]"

definition ERR_MSG :: string where
  "ERR_MSG = ''ERROR'' @ [NUL, NUL]"

text \<open>\<^verbatim>\<open>uint8_t rspStrSize = 10\<close>, the size of both \<^verbatim>\<open>sendStr\<close> and \<^verbatim>\<open>rspStr\<close>.\<close>

definition rspStrSize :: nat where
  "rspStrSize = 10"

subsection \<open>C strings\<close>

text \<open>A \<^verbatim>\<open>char\<close> array is a list of characters; the string it holds ends before the first
  NUL.\<close>

definition cstr :: "string \<Rightarrow> string" where
  "cstr a = takeWhile (\<lambda>c. c \<noteq> NUL) a"

text \<open>\<^verbatim>\<open>strcmp\<close> on the two strings held: zero when they are equal, otherwise the
  difference of the first two bytes that differ (the end of a string counting as 0).\<close>

fun strcmp_chars :: "string \<Rightarrow> string \<Rightarrow> int" where
  "strcmp_chars [] [] = 0"
| "strcmp_chars [] (y # ys) = - int (of_char y)"
| "strcmp_chars (x # xs) [] = int (of_char x)"
| "strcmp_chars (x # xs) (y # ys) =
     (if x = y then strcmp_chars xs ys else int (of_char x) - int (of_char y))"

definition strcmp :: "string \<Rightarrow> string \<Rightarrow> int" where
  "strcmp a b = strcmp_chars (cstr a) (cstr b)"

subsection \<open>The machine: serial port, clock and console\<close>

text \<open>Every platform call that has an effect, and every write of the timestamp, is logged
  in program order.\<close>

datatype event =
    Sent string
  | Printed string
  | BaudSet "32 word"
  | BreakSet bool
  | Delayed nat
  | Got char
  | Stamp "32 word"

text \<open>
  \<open>time\<close> is the number of milliseconds since start-up; \<open>rx\<close> is what the radio sends, each
  byte with the time at which the port has received it, in order of arrival; \<open>baud\<close> is
  the rate of the ClearCore XBee port; \<open>msLastCmd\<close>, \<open>sendStr\<close> and \<open>rspStr\<close> are the
  sketch's globals. Every call of \<open>atCommandSend\<close> and \<open>atRspReceive\<close> in the sketch passes
  \<^verbatim>\<open>rspStr\<close> and \<^verbatim>\<open>rspStrSize\<close> for \<^verbatim>\<open>rsp\<close> and \<^verbatim>\<open>rspLen\<close>, so the buffer written is the field
  \<open>rspStr\<close>.
\<close>

record world =
  time :: nat
  rx :: "(nat \<times> char) list"
  baud :: "32 word"
  msLastCmd :: "32 word"
  sendStr :: string
  rspStr :: string
  trace :: "event list"

text \<open>
  The platform calls follow. The sketch consumes them as the transport interface of the
  spec (send, bytes available, read byte, set break, set and get baud rate) together with
  the millisecond counter and \<^verbatim>\<open>delay\<close>. Time passes in \<^verbatim>\<open>delay\<close> and between two readings of
  the counter in a polling loop (\<open>tick\<close>); sending, printing and taking a byte that is
  already in the port take no time at the resolution of the counter.
\<close>

text \<open>Modelled from the spec: \<^verbatim>\<open>Milliseconds()\<close>, the monotonic time source. It is a
  \<^verbatim>\<open>uint32_t\<close>: the counter wraps.\<close>

definition Milliseconds :: "world \<Rightarrow> 32 word" where
  "Milliseconds w = of_nat (time w)"

definition log_event :: "event \<Rightarrow> world \<Rightarrow> world" where
  "log_event e w = w\<lparr>trace := trace w @ [e]\<rparr>"

text \<open>Modelled from the spec: \<^verbatim>\<open>delay(ms)\<close>, which blocks for the interval given.\<close>

definition delay :: "nat \<Rightarrow> world \<Rightarrow> world" where
  "delay ms w = log_event (Delayed ms) (w\<lparr>time := time w + ms\<rparr>)"

text \<open>Modelled from the spec: \<^verbatim>\<open>Serial.println\<close>, the diagnostic output, which prints the
  string held in its argument.\<close>

definition println :: "string \<Rightarrow> world \<Rightarrow> world" where
  "println s w = log_event (Printed (cstr s)) w"

text \<open>Modelled from the spec: \<^verbatim>\<open>XBee.Speed()\<close>, the transport's \<^verbatim>\<open>getBaudRate\<close>.\<close>

definition Speed_get :: "world \<Rightarrow> 32 word" where
  "Speed_get w = baud w"

text \<open>Modelled from the spec: \<^verbatim>\<open>XBee.Speed(rate)\<close>, the transport's \<^verbatim>\<open>setBaudRate\<close>.\<close>

definition Speed_set :: "32 word \<Rightarrow> world \<Rightarrow> world" where
  "Speed_set r w = log_event (BaudSet r) (w\<lparr>baud := r\<rparr>)"

text \<open>Modelled from the spec: \<^verbatim>\<open>XBee.SerialBreak(asserted)\<close>, the transport's \<^verbatim>\<open>setBreak\<close>.\<close>

definition SerialBreak :: "bool \<Rightarrow> world \<Rightarrow> world" where
  "SerialBreak b w = log_event (BreakSet b) w"

text \<open>Modelled from the spec: \<^verbatim>\<open>XBee.Send(str)\<close>, the transport's \<^verbatim>\<open>send\<close>, which sends the
  bytes of the string held in its argument.\<close>

definition Send :: "string \<Rightarrow> world \<Rightarrow> world" where
  "Send s w = log_event (Sent (cstr s)) w"

text \<open>Modelled from the spec: \<^verbatim>\<open>XBee.AvailableForRead()\<close>, the transport's
  \<^verbatim>\<open>bytesAvailable\<close>, used as a truth value: a byte is there once its time of arrival has
  come.\<close>

definition AvailableForRead :: "world \<Rightarrow> bool" where
  "AvailableForRead w = (case rx w of [] \<Rightarrow> False | (t, c) # rest \<Rightarrow> t \<le> time w)"

text \<open>Modelled from the spec: \<^verbatim>\<open>XBee.CharGet()\<close>, the transport's \<^verbatim>\<open>readByte\<close>. It takes the
  oldest byte; the sketch calls it only when a byte is available, and the value for an
  empty port (-1, which is 0xFF in a \<^verbatim>\<open>char\<close>) is never used.\<close>

definition CharGet :: "world \<Rightarrow> char \<times> world" where
  "CharGet w = (case rx w of [] \<Rightarrow> (CHR 0xFF, w)
                | (t, c) # rest \<Rightarrow> (c, log_event (Got c) (w\<lparr>rx := rest\<rparr>)))"

text \<open>Modelled from the spec: the passing of time in a polling loop (timeouts are
  re-evaluated on each poll iteration). A pass of the loop that reads nothing is followed
  by the next reading of the counter, one millisecond on.\<close>

definition tick :: "world \<Rightarrow> world" where
  "tick w = w\<lparr>time := time w + 1\<rparr>"

text \<open>What has gone out on the wire, what is on the console, and the rates set, in order.\<close>

fun sent_of :: "event list \<Rightarrow> string" where
  "sent_of [] = []"
| "sent_of (Sent s # es) = s @ sent_of es"
| "sent_of (e # es) = sent_of es"

fun console_of :: "event list \<Rightarrow> string list" where
  "console_of [] = []"
| "console_of (Printed s # es) = s # console_of es"
| "console_of (e # es) = console_of es"

fun bauds_of :: "event list \<Rightarrow> 32 word list" where
  "bauds_of [] = []"
| "bauds_of (BaudSet r # es) = r # bauds_of es"
| "bauds_of (e # es) = bauds_of es"

subsection \<open>atRspReceive\<close>

text \<open>
  The \<^verbatim>\<open>while\<close> loop of \<open>atRspReceive\<close>, with \<^verbatim>\<open>rspIndex\<close> as an argument. The comparison
  \<^verbatim>\<open>rspIndex < rspLen - 1\<close> is made on \<^verbatim>\<open>int\<close> (both operands are promoted), and since
  \<^verbatim>\<open>rspIndex\<close> stays below \<^verbatim>\<open>rspLen - 1 \<le> 254\<close> where it is incremented, it never wraps.
\<close>

function atRspReceive_loop :: "nat \<Rightarrow> nat \<Rightarrow> world \<Rightarrow> bool \<times> world" where
  "atRspReceive_loop rspLen rspIndex w =
     (if Milliseconds w - msLastCmd w < TIMEOUT then
        (if AvailableForRead w then
           (if int rspIndex < int rspLen - 1 then
              (let readChar = fst (CharGet w); w1 = snd (CharGet w) in
               if readChar = CR then (True, println (rspStr w1) w1)
               else atRspReceive_loop rspLen (rspIndex + 1)
                      (w1\<lparr>rspStr := (rspStr w1)[rspIndex := readChar, rspIndex + 1 := NUL]\<rparr>))
            else atRspReceive_loop rspLen rspIndex (tick w))
         else atRspReceive_loop rspLen rspIndex (tick w))
      else (False, println ''Timed out waiting for a response.'' w))"
  by pat_completeness auto

text \<open>The loop ends: a pass either takes a byte from the finite input or lets the clock
  move towards the deadline.\<close>

lemma tick_diff:
  assumes "Milliseconds w - msLastCmd w < TIMEOUT"
  shows "unat (Milliseconds (tick w) - msLastCmd (tick w)) =
         Suc (unat (Milliseconds w - msLastCmd w))"
proof -
  let ?d = "Milliseconds w - msLastCmd w"
  have e: "Milliseconds (tick w) - msLastCmd (tick w) = ?d + 1"
    by (simp add: Milliseconds_def tick_def)
  have "unat ?d < 10000"
    using assms by (simp add: TIMEOUT_def word_less_nat_alt)
  then have "unat (?d + 1) = unat ?d + 1"
    by (simp add: unat_word_ariths)
  with e show ?thesis by simp
qed

termination atRspReceive_loop
  apply (relation "measure (\<lambda>(rspLen, rspIndex, w).
            (10000 - unat (Milliseconds w - msLastCmd w)) + length (rx w))")
     apply simp
    apply (auto simp: CharGet_def AvailableForRead_def log_event_def Milliseconds_def
                split: list.splits)[1]
   apply (frule tick_diff, simp add: tick_def TIMEOUT_def word_less_nat_alt)
  apply (frule tick_diff, simp add: tick_def TIMEOUT_def word_less_nat_alt)
  done

declare atRspReceive_loop.simps [simp del]

text \<open>\<open>atRspReceive\<close>: the buffer is emptied first, then the loop runs from index 0.\<close>

definition atRspReceive :: "nat \<Rightarrow> world \<Rightarrow> bool \<times> world" where
  "atRspReceive rspLen w =
     atRspReceive_loop rspLen 0 (w\<lparr>rspStr := (rspStr w)[0 := NUL]\<rparr>)"

subsection \<open>atCommandSend, AtModeDefault, exitFail\<close>

text \<open>\<^verbatim>\<open>msLastCmd = Milliseconds();\<close>\<close>

definition stamp :: "world \<Rightarrow> world" where
  "stamp w = log_event (Stamp (Milliseconds w)) (w\<lparr>msLastCmd := Milliseconds w\<rparr>)"

text \<open>The function returns \<^verbatim>\<open>void\<close>: what \<open>atRspReceive\<close> returns is dropped.\<close>

definition atCommandSend :: "string \<Rightarrow> nat \<Rightarrow> world \<Rightarrow> world" where
  "atCommandSend cmd rspLen w =
     (if Milliseconds w - msLastCmd w > TIMEOUT then w
      else
        (let w1 = Send cmd w;
             w2 = println cmd w1;
             w3 = Send [CR, NUL] w2;
             w4 = stamp w3
         in snd (atRspReceive rspLen w4)))"

definition AtModeDefault :: "world \<Rightarrow> world" where
  "AtModeDefault w =
     (let w1 = println ''Forcing AT Mode with a Serial Break...'' w;
          w2 = SerialBreak True w1;
          w3 = delay 6000 w2;
          w4 = SerialBreak False w3;
          w5 = stamp w4;
          w6 = snd (atRspReceive rspStrSize w5);
          w7 = delay 1 w6
      in stamp w7)"

definition exitFail :: "string \<Rightarrow> world \<Rightarrow> world" where
  "exitFail message w = delay 600 (println message w)"

subsection \<open>DeviceSpeed\<close>

text \<open>The \<^verbatim>\<open>switch (speed)\<close>: the code of a rate, \<open>None\<close> for the \<^verbatim>\<open>default\<close> case.\<close>

definition baudRate_switch :: "32 word \<Rightarrow> char option" where
  "baudRate_switch speed =
     (if speed = 2400 then Some (CHR ''1'')
      else if speed = 4800 then Some (CHR ''2'')
      else if speed = 9600 then Some (CHR ''3'')
      else if speed = 19200 then Some (CHR ''4'')
      else if speed = 38400 then Some (CHR ''5'')
      else if speed = 57600 then Some (CHR ''6'')
      else if speed = 115200 then Some (CHR ''7'')
      else if speed = 230400 then Some (CHR ''8'')
      else if speed = 460800 then Some (CHR ''9'')
      else if speed = 921600 then Some (CHR ''A'')
      else None)"

text \<open>\<^verbatim>\<open>strncpy(dst, src, n)\<close>: \<open>n\<close> bytes are written, those of the string and then NULs.\<close>

definition strncpy :: "string \<Rightarrow> string \<Rightarrow> nat \<Rightarrow> string" where
  "strncpy dst src n =
     take n (cstr src) @ replicate (n - length (cstr src)) NUL @ drop n dst"

text \<open>
  \<open>exitFail\<close> returns to its caller, and no call of it is followed by a \<^verbatim>\<open>return\<close>: after
  each check the next statement runs. In the \<^verbatim>\<open>default\<close> case \<^verbatim>\<open>baudRate\<close> keeps its initial
  value \<^verbatim>\<open>'0'\<close>.
\<close>

definition DeviceSpeed :: "world \<Rightarrow> world" where
  "DeviceSpeed w0 =
     (let speed = Speed_get w0;
          w1 = Speed_set 9600 w0;
          w2 = AtModeDefault w1;
          w3 = (if strcmp (rspStr w2) OK_MSG \<noteq> 0
                then exitFail ''Failed to establish AT Command Mode.'' w2 else w2);
          w4 = atCommandSend (''AT'' @ [NUL]) rspStrSize w3;
          w5 = (if strcmp (rspStr w4) OK_MSG \<noteq> 0
                then exitFail ''Failed to verify AT Command Mode.'' w4 else w4);
          baudRate = (case baudRate_switch speed of Some c \<Rightarrow> c | None \<Rightarrow> CHR ''0'');
          w6 = (case baudRate_switch speed of Some c \<Rightarrow> w5
                | None \<Rightarrow> exitFail ''Specified baud rate is invalid.'' w5);
          w7 = w6\<lparr>sendStr := strncpy (sendStr w6) (''ATBD '' @ [NUL]) 5\<rparr>;
          w8 = w7\<lparr>sendStr := (sendStr w7)[5 := baudRate]\<rparr>;
          w9 = w8\<lparr>sendStr := (sendStr w8)[6 := NUL]\<rparr>;
          w10 = atCommandSend (sendStr w9) rspStrSize w9;
          w11 = (if strcmp (rspStr w10) OK_MSG \<noteq> 0
                 then exitFail ''Failed to set the specified baud rate.'' w10 else w10);
          w12 = atCommandSend (''ATWR'' @ [NUL]) rspStrSize w11;
          w13 = (if strcmp (rspStr w12) OK_MSG \<noteq> 0
                 then exitFail ''Failed to write to firmware.'' w12 else w12);
          w14 = atCommandSend (''ATCN'' @ [NUL]) rspStrSize w13;
          w15 = (if strcmp (rspStr w14) OK_MSG \<noteq> 0
                 then exitFail ''Failed to force exit AT Command Mode.'' w14 else w14)
      in Speed_set speed w15)"

subsection \<open>DeviceSpeed as a chain of its steps\<close>

text \<open>
  The same function, with each statement of \<open>DeviceSpeed\<close> as a function of the state:
  \<open>require_ok\<close> is the test \<^verbatim>\<open>if (strcmp(rspStr, OK_MSG)) { exitFail(...); }\<close> that follows
  every exchange, \<open>pick_rate\<close> the \<^verbatim>\<open>switch\<close> with the three writes to \<^verbatim>\<open>sendStr\<close>, and
  \<open>send_own\<close> the call \<^verbatim>\<open>atCommandSend(sendStr, rspStr, rspStrSize)\<close>.
\<close>

definition require_ok :: "string \<Rightarrow> world \<Rightarrow> world" where
  "require_ok message w =
     (if strcmp (rspStr w) OK_MSG \<noteq> 0 then exitFail message w else w)"

definition pick_rate :: "32 word \<Rightarrow> world \<Rightarrow> world" where
  "pick_rate speed w5 =
     (let baudRate = (case baudRate_switch speed of Some c \<Rightarrow> c | None \<Rightarrow> CHR ''0'');
          w6 = (case baudRate_switch speed of Some c \<Rightarrow> w5
                | None \<Rightarrow> exitFail ''Specified baud rate is invalid.'' w5);
          w7 = w6\<lparr>sendStr := strncpy (sendStr w6) (''ATBD '' @ [NUL]) 5\<rparr>;
          w8 = w7\<lparr>sendStr := (sendStr w7)[5 := baudRate]\<rparr>
      in w8\<lparr>sendStr := (sendStr w8)[6 := NUL]\<rparr>)"

definition send_own :: "world \<Rightarrow> world" where
  "send_own w = atCommandSend (sendStr w) rspStrSize w"

lemma DeviceSpeed_steps:
  "DeviceSpeed w0 =
     Speed_set (baud w0)
      (require_ok ''Failed to force exit AT Command Mode.''
        (atCommandSend (''ATCN'' @ [NUL]) rspStrSize
          (require_ok ''Failed to write to firmware.''
            (atCommandSend (''ATWR'' @ [NUL]) rspStrSize
              (require_ok ''Failed to set the specified baud rate.''
                (send_own
                  (pick_rate (baud w0)
                    (require_ok ''Failed to verify AT Command Mode.''
                      (atCommandSend (''AT'' @ [NUL]) rspStrSize
                        (require_ok ''Failed to establish AT Command Mode.''
                          (AtModeDefault (Speed_set 9600 w0))))))))))))"
  unfolding DeviceSpeed_def require_ok_def pick_rate_def send_own_def Let_def Speed_get_def
  by (rule refl)

lemma AtModeDefault_eq:
  "AtModeDefault w =
     stamp (delay 1 (snd (atRspReceive rspStrSize (stamp (SerialBreak False
       (delay 6000 (SerialBreak True
         (println ''Forcing AT Mode with a Serial Break...'' w))))))))"
  by (simp add: AtModeDefault_def Let_def)

lemma atCommandSend_eq:
  "atCommandSend cmd n w =
     (if Milliseconds w - msLastCmd w > TIMEOUT then w
      else snd (atRspReceive n (stamp (Send [CR, NUL] (println cmd (Send cmd w))))))"
  by (simp add: atCommandSend_def Let_def)

section \<open>Lemmas about the embedding\<close>

subsection \<open>The events a call adds\<close>

text \<open>\<open>since w w'\<close> is what the log of \<open>w'\<close> holds after the log of \<open>w\<close>.\<close>

definition since :: "world \<Rightarrow> world \<Rightarrow> event list" where
  "since w w' = drop (length (trace w)) (trace w')"

lemma since_append: "trace w' = trace w @ evs \<Longrightarrow> since w w' = evs"
  by (simp add: since_def)


lemma sent_of_append: "sent_of (a @ b) = sent_of a @ sent_of b"
  by (induction a rule: sent_of.induct) auto


lemma console_of_append: "console_of (a @ b) = console_of a @ console_of b"
  by (induction a rule: console_of.induct) auto

lemma sent_of_Got: "sent_of (map Got xs) = []"
  by (induction xs) auto


subsection \<open>What the loop computes\<close>

text \<open>
  The loop is characterised by a structural recursion over the input. \<open>deadline\<close> is the
  time at which the loop's condition turns false; \<open>scan room dl now r\<close> walks the input \<open>r\<close>
  from time \<open>now\<close> with \<open>room\<close> bytes of space left and gives the return value, the time
  of the return, the bytes stored and the input left in the port; \<open>store\<close> is the sequence
  of writes to the buffer.
\<close>

definition deadline :: "world \<Rightarrow> nat" where
  "deadline w = time w + (10000 - unat (Milliseconds w - msLastCmd w))"

fun scan :: "nat \<Rightarrow> nat \<Rightarrow> nat \<Rightarrow> (nat \<times> char) list
              \<Rightarrow> bool \<times> nat \<times> string \<times> (nat \<times> char) list" where
  "scan room dl now [] = (False, max now dl, [], [])"
| "scan room dl now ((t, c) # rest) =
     (if room = 0 \<or> dl \<le> max now t then (False, max now dl, [], (t, c) # rest)
      else if c = CR then (True, max now t, [], rest)
      else (case scan (room - 1) dl (max now t) rest of
              (ok, tm, cs, rx') \<Rightarrow> (ok, tm, c # cs, rx')))"

fun store :: "nat \<Rightarrow> string \<Rightarrow> string \<Rightarrow> string" where
  "store idx [] buf = buf"
| "store idx (c # cs) buf = store (idx + 1) cs (buf[idx := c, idx + 1 := NUL])"

definition loop_result :: "nat \<Rightarrow> nat \<Rightarrow> world \<Rightarrow> bool \<times> world" where
  "loop_result rspLen rspIndex w =
     (case scan (nat (int rspLen - 1 - int rspIndex)) (deadline w) (time w) (rx w) of
        (ok, tm, cs, rx') \<Rightarrow>
          (let w' = w\<lparr>time := tm, rx := rx', rspStr := store rspIndex cs (rspStr w),
                       trace := trace w @ map Got (cs @ (if ok then [CR] else []))\<rparr>
           in (ok, println (if ok then rspStr w'
                            else ''Timed out waiting for a response.'') w')))"

lemma deadline_expired:
  "\<not> Milliseconds w - msLastCmd w < TIMEOUT \<Longrightarrow> deadline w = time w"
  by (simp add: deadline_def TIMEOUT_def word_less_nat_alt)

lemma deadline_running:
  "Milliseconds w - msLastCmd w < TIMEOUT \<Longrightarrow> time w < deadline w"
  by (simp add: deadline_def TIMEOUT_def word_less_nat_alt)

lemma deadline_tick:
  "Milliseconds w - msLastCmd w < TIMEOUT \<Longrightarrow> deadline (tick w) = deadline w"
  using tick_diff[of w]
  by (simp add: deadline_def TIMEOUT_def word_less_nat_alt tick_def)

lemma scan_expired: "scan room now now r = (False, now, [], r)"
  by (cases r) auto

lemma scan_wait:
  "now < dl \<Longrightarrow> (r = [] \<or> now < fst (hd r) \<or> room = 0) \<Longrightarrow>
   scan room dl (Suc now) r = scan room dl now r"
  by (cases r) (auto simp: max_def)

lemma loop_scan: "atRspReceive_loop rspLen rspIndex w = loop_result rspLen rspIndex w"
proof (induction rspLen rspIndex w rule: atRspReceive_loop.induct)
  case (1 rspLen rspIndex w)
  show ?case
  proof (cases "Milliseconds w - msLastCmd w < TIMEOUT")
    case False
    then show ?thesis
      by (subst atRspReceive_loop.simps)
         (simp add: loop_result_def deadline_expired scan_expired)
  next
    case run: True
    show ?thesis
    proof (cases "AvailableForRead w \<and> int rspIndex < int rspLen - 1")
      case False
      then have blocked:
        "rx w = [] \<or> time w < fst (hd (rx w)) \<or> nat (int rspLen - 1 - int rspIndex) = 0"
        by (auto simp: AvailableForRead_def split: list.splits)
      from False run
      have "atRspReceive_loop rspLen rspIndex w = atRspReceive_loop rspLen rspIndex (tick w)"
        by (subst atRspReceive_loop.simps) auto
      also have "\<dots> = loop_result rspLen rspIndex (tick w)"
        using "1.IH"(2,3) run False by auto
      also have "\<dots> = loop_result rspLen rspIndex w"
        using scan_wait[OF deadline_running[OF run] blocked]
        by (simp add: loop_result_def deadline_tick[OF run]) (simp add: tick_def)
      finally show ?thesis .
    next
      case ready: True
      then obtain t c rest where r: "rx w = (t, c) # rest" and t: "t \<le> time w"
        by (auto simp: AvailableForRead_def split: list.splits)
      from ready have room: "nat (int rspLen - 1 - int rspIndex) \<noteq> 0"
        by auto
      show ?thesis
      proof (cases "c = CR")
        case True
        with ready run r t room deadline_running[OF run] show ?thesis
          by (subst atRspReceive_loop.simps)
             (simp add: loop_result_def CharGet_def log_event_def println_def max_def)
      next
        case False
        let ?w' = "(snd (CharGet w))\<lparr>rspStr :=
                     (rspStr (snd (CharGet w)))[rspIndex := fst (CharGet w),
                                                rspIndex + 1 := NUL]\<rparr>"
        have "atRspReceive_loop rspLen rspIndex w = atRspReceive_loop rspLen (rspIndex + 1) ?w'"
          using False ready run r
          by (subst atRspReceive_loop.simps) (simp add: CharGet_def Let_def)
        also have "\<dots> = loop_result rspLen (rspIndex + 1) ?w'"
          using "1.IH"(1)[OF run _ _ refl refl] ready False r
          by (simp add: CharGet_def)
        also have "\<dots> = loop_result rspLen rspIndex w"
        proof -
          have d: "deadline ?w' = deadline w"
            by (simp add: deadline_def CharGet_def r log_event_def Milliseconds_def)
          have n: "nat (int rspLen - 1 - int (rspIndex + 1)) =
                   nat (int rspLen - 1 - int rspIndex) - 1"
            by simp
          show ?thesis
            using room t deadline_running[OF run] False
            unfolding loop_result_def d n
            by (simp add: CharGet_def r log_event_def max_def println_def split: prod.splits)
        qed
        finally show ?thesis .
      qed
    qed
  qed
qed

subsection \<open>The buffer after a read\<close>

lemma store_closed:
  "idx + length cs < length buf \<Longrightarrow> buf ! idx = NUL \<Longrightarrow>
   store idx cs buf = take idx buf @ cs @ NUL # drop (idx + length cs + 1) buf"
proof (induction cs arbitrary: idx buf)
  case Nil
  then show ?case using id_take_nth_drop[of idx buf] by simp
next
  case (Cons c cs)
  let ?b = "buf[idx := c, idx + 1 := NUL]"
  have l: "idx + 1 + length cs < length ?b" using Cons.prems by simp
  have z: "?b ! (idx + 1) = NUL" using Cons.prems by simp
  have t: "take (idx + 1) ?b = take idx buf @ [c]"
    using Cons.prems by (simp add: take_Suc_conv_app_nth)
  have d: "drop (idx + 1 + length cs + 1) ?b = drop (idx + length (c # cs) + 1) buf"
    by simp
  show ?case
    using Cons.IH[OF l z] t d by simp
qed

lemma cstr_cut: "cstr (xs @ NUL # ys) = cstr xs"
  by (induction xs) (auto simp: cstr_def)

lemma scan_zero: "scan 0 dl now r = (False, max now dl, [], r)"
  by (cases r) auto

lemma scan_prefix:
  "length pre \<le> room \<Longrightarrow> \<forall>p\<in>set pre. fst p < dl \<and> snd p \<noteq> CR \<Longrightarrow> now < dl \<Longrightarrow>
   scan room dl now (pre @ rest) =
     (case scan (room - length pre) dl (foldl max now (map fst pre)) rest of
        (ok, tm, cs, r') \<Rightarrow> (ok, tm, map snd pre @ cs, r'))"
proof (induction pre arbitrary: room now)
  case Nil
  then show ?case by simp
next
  case (Cons p pre)
  obtain t c where p: "p = (t, c)" by (cases p)
  from Cons.prems p have a: "length pre \<le> room - 1" "max now t < dl" "c \<noteq> CR" "room \<noteq> 0"
    by auto
  from Cons.prems have b: "\<forall>p\<in>set pre. fst p < dl \<and> snd p \<noteq> CR" by simp
  show ?case
    using Cons.IH[OF a(1) b a(2)] a p
    by (simp split: prod.splits)
qed

lemma foldl_max_less: "now < dl \<Longrightarrow> \<forall>t\<in>set ts. t < dl \<Longrightarrow> foldl max now ts < (dl::nat)"
  by (induction ts arbitrary: now) auto

lemma scan_no_cr:
  "\<forall>p\<in>set r. snd p = CR \<longrightarrow> dl \<le> fst p \<Longrightarrow> scan room dl now r = (ok, tm, cs, r') \<Longrightarrow>
   \<not> ok \<and> tm = max now dl \<and> length cs \<le> room \<and>
   cs = map snd (take (length cs) r) \<and> r' = drop (length cs) r"
proof (induction r arbitrary: room now ok tm cs r')
  case Nil
  then show ?case by auto
next
  case (Cons p r)
  obtain t c where p: "p = (t, c)" by (cases p)
  show ?case
  proof (cases "room = 0 \<or> dl \<le> max now t")
    case True
    with Cons.prems p show ?thesis by auto
  next
    case False
    with Cons.prems(1) p have c: "c \<noteq> CR" by auto
    obtain ok1 tm1 cs1 r1 where
      s: "scan (room - 1) dl (max now t) r = (ok1, tm1, cs1, r1)"
      by (metis prod_cases4)
    from Cons.prems(1) have "\<forall>p\<in>set r. snd p = CR \<longrightarrow> dl \<le> fst p" by simp
    from Cons.IH[OF this s]
    have i: "\<not> ok1 \<and> tm1 = max (max now t) dl \<and> length cs1 \<le> room - 1 \<and>
             cs1 = map snd (take (length cs1) r) \<and> r1 = drop (length cs1) r" .
    from Cons.prems(2) p False c s
    have e: "ok = ok1" "tm = tm1" "cs = c # cs1" "r' = r1" by auto
    from False have "now < dl" "t < dl" by auto
    moreover from i False have "Suc (length cs1) \<le> room" by linarith
    ultimately show ?thesis using i e p by (simp add: max_def)
  qed
qed

subsection \<open>What a read leaves alone\<close>

lemma atRspReceive_eq:
  "atRspReceive n w = loop_result n 0 (w\<lparr>rspStr := (rspStr w)[0 := NUL]\<rparr>)"
  by (simp add: atRspReceive_def loop_scan)

lemma scan_time:
  "scan room dl now r = (ok, tm, cs, r') \<Longrightarrow> now \<le> tm \<and> tm \<le> max now dl"
proof (induction r arbitrary: room now ok tm cs r')
  case Nil
  then show ?case by auto
next
  case (Cons p r)
  obtain t c where p: "p = (t, c)" by (cases p)
  show ?case
  proof (cases "room = 0 \<or> dl \<le> max now t \<or> c = CR")
    case True
    with Cons.prems p show ?thesis by (auto split: if_splits)
  next
    case False
    obtain ok1 tm1 cs1 r1 where
      s: "scan (room - 1) dl (max now t) r = (ok1, tm1, cs1, r1)"
      by (metis prod_cases4)
    from Cons.IH[OF s] have "max now t \<le> tm1 \<and> tm1 \<le> max (max now t) dl" .
    moreover from Cons.prems p False s have "tm = tm1" by simp
    ultimately show ?thesis using False by auto
  qed
qed

lemma reader_trace:
  "\<exists>xs s. trace (snd (atRspReceive n w)) = trace w @ map Got xs @ [Printed s]"
proof -
  let ?w = "w\<lparr>rspStr := (rspStr w)[0 := NUL]\<rparr>"
  obtain ok tm cs r' where
    s: "scan (nat (int n - 1 - int 0)) (deadline ?w) (time ?w) (rx ?w) = (ok, tm, cs, r')"
    by (metis prod_cases4)
  then have "\<exists>s. trace (snd (atRspReceive n w)) =
      trace w @ map Got (cs @ (if ok then [CR] else [])) @ [Printed s]"
    by (simp add: atRspReceive_eq loop_result_def println_def log_event_def)
  then show ?thesis by blast
qed

lemma reader_frame:
  "baud (snd (atRspReceive n w)) = baud w"
  "msLastCmd (snd (atRspReceive n w)) = msLastCmd w"
  "sendStr (snd (atRspReceive n w)) = sendStr w"
  by (simp_all add: atRspReceive_eq loop_result_def println_def log_event_def
                    split: prod.splits)

lemma reader_time:
  "time w \<le> time (snd (atRspReceive n w)) \<and>
   time (snd (atRspReceive n w)) \<le> max (time w) (deadline w)"
proof -
  let ?w = "w\<lparr>rspStr := (rspStr w)[0 := NUL]\<rparr>"
  obtain ok tm cs r' where
    s: "scan (nat (int n - 1 - int 0)) (deadline ?w) (time ?w) (rx ?w) = (ok, tm, cs, r')"
    by (metis prod_cases4)
  have d: "deadline ?w = deadline w"
    by (simp add: deadline_def Milliseconds_def)
  from scan_time[OF s] s show ?thesis
    by (simp add: atRspReceive_eq loop_result_def println_def log_event_def d)
qed


subsection \<open>The three ways a read ends\<close>

lemma reader_complete:
  assumes run: "Milliseconds w - msLastCmd w < TIMEOUT"
    and rx: "rx w = pre @ (t, CR) # rest"
    and pre: "\<forall>p\<in>set pre. fst p < deadline w \<and> snd p \<noteq> CR"
    and t: "t < deadline w"
    and fit: "length pre + 1 < rspLen"
    and buf: "rspLen \<le> length (rspStr w)"
  shows "atRspReceive rspLen w =
     (True, println (map snd pre @ [NUL])
        (w\<lparr>time := foldl max (time w) (map fst pre @ [t]), rx := rest,
           rspStr := map snd pre @ NUL # drop (length pre + 1) (rspStr w),
           trace := trace w @ map Got (map snd pre @ [CR])\<rparr>))"
proof -
  let ?w = "w\<lparr>rspStr := (rspStr w)[0 := NUL]\<rparr>"
  have d: "deadline ?w = deadline w"
    by (simp add: deadline_def Milliseconds_def)
  have now: "time w < deadline w"
    using run by (rule deadline_running)
  have room: "length pre \<le> nat (int rspLen - 1)" "nat (int rspLen - 1) - length pre \<noteq> 0"
    using fit by auto
  have f: "foldl max (time w) (map fst pre) < deadline w"
    using now pre by (intro foldl_max_less) auto
  have s: "scan (nat (int rspLen - 1)) (deadline w) (time w) (rx w) =
           (True, foldl max (time w) (map fst pre @ [t]), map snd pre, rest)"
    unfolding rx scan_prefix[OF room(1) pre now]
    using room(2) f t by simp
  have st: "store 0 (map snd pre) ((rspStr w)[0 := NUL]) =
            map snd pre @ NUL # drop (length pre + 1) (rspStr w)"
  proof -
    have "0 < length (rspStr w)" using fit buf by linarith
    then show ?thesis using fit buf by (subst store_closed) auto
  qed
  show ?thesis
    by (simp add: atRspReceive_eq loop_result_def d s st println_def cstr_cut cstr_cut[of _ "[]"])
qed

lemma reader_full:
  assumes run: "Milliseconds w - msLastCmd w < TIMEOUT"
    and rx: "rx w = pre @ rest"
    and pre: "\<forall>p\<in>set pre. fst p < deadline w \<and> snd p \<noteq> CR"
    and full: "length pre + 1 = rspLen"
    and buf: "rspLen \<le> length (rspStr w)"
  shows "atRspReceive rspLen w =
     (False, println ''Timed out waiting for a response.''
        (w\<lparr>time := deadline w, rx := rest,
           rspStr := map snd pre @ NUL # drop rspLen (rspStr w),
           trace := trace w @ map Got (map snd pre)\<rparr>))"
proof -
  let ?w = "w\<lparr>rspStr := (rspStr w)[0 := NUL]\<rparr>"
  have d: "deadline ?w = deadline w"
    by (simp add: deadline_def Milliseconds_def)
  have now: "time w < deadline w"
    using run by (rule deadline_running)
  have room: "length pre \<le> nat (int rspLen - 1)" "nat (int rspLen - 1) - length pre = 0"
    using full by auto
  have f: "foldl max (time w) (map fst pre) < deadline w"
    using now pre by (intro foldl_max_less) auto
  have s: "scan (nat (int rspLen - 1)) (deadline w) (time w) (rx w) =
           (False, deadline w, map snd pre, rest)"
    unfolding rx scan_prefix[OF room(1) pre now] room(2) scan_zero
    using f by (simp add: max_def)
  have st: "store 0 (map snd pre) ((rspStr w)[0 := NUL]) =
            map snd pre @ NUL # drop rspLen (rspStr w)"
  proof -
    have "0 < length (rspStr w)" using full buf by linarith
    then show ?thesis using full buf by (subst store_closed) auto
  qed
  show ?thesis
    by (simp add: atRspReceive_eq loop_result_def d s st println_def)
qed

lemma reader_timeout:
  assumes nocr: "\<forall>p\<in>set (rx w). snd p = CR \<longrightarrow> deadline w \<le> fst p"
    and len: "0 < rspLen" and buf: "rspLen \<le> length (rspStr w)"
  shows "fst (atRspReceive rspLen w) = False \<and>
         time (snd (atRspReceive rspLen w)) = deadline w \<and>
         (\<exists>n<rspLen. rspStr (snd (atRspReceive rspLen w)) =
                  map snd (take n (rx w)) @ NUL # drop (n + 1) (rspStr w) \<and>
                rx (snd (atRspReceive rspLen w)) = drop n (rx w))"
proof -
  let ?w = "w\<lparr>rspStr := (rspStr w)[0 := NUL]\<rparr>"
  have d: "deadline ?w = deadline w"
    by (simp add: deadline_def Milliseconds_def)
  obtain ok tm cs r' where
    s: "scan (nat (int rspLen - 1)) (deadline w) (time w) (rx w) = (ok, tm, cs, r')"
    by (metis prod_cases4)
  from scan_no_cr[OF nocr s]
  have i: "\<not> ok" "tm = max (time w) (deadline w)" "length cs \<le> nat (int rspLen - 1)"
          "cs = map snd (take (length cs) (rx w))" "r' = drop (length cs) (rx w)"
    by auto
  have m: "max (time w) (deadline w) = deadline w"
    by (simp add: deadline_def)
  have n: "length cs < rspLen" using i(3) len by auto
  have st: "store 0 cs ((rspStr w)[0 := NUL]) = cs @ NUL # drop (length cs + 1) (rspStr w)"
  proof -
    have "0 < length (rspStr w)" using n buf by linarith
    then show ?thesis using n buf by (subst store_closed) auto
  qed
  have r: "atRspReceive rspLen w =
     (False, println ''Timed out waiting for a response.''
        (w\<lparr>time := deadline w, rx := r',
           rspStr := cs @ NUL # drop (length cs + 1) (rspStr w),
           trace := trace w @ map Got cs\<rparr>))"
    using i(1,2) by (simp add: atRspReceive_eq loop_result_def d s st m)
  have "rspStr (snd (atRspReceive rspLen w)) =
          map snd (take (length cs) (rx w)) @ NUL # drop (length cs + 1) (rspStr w) \<and>
        rx (snd (atRspReceive rspLen w)) = drop (length cs) (rx w)"
    using i(4,5) by (simp add: r println_def log_event_def)
  with n have "\<exists>n<rspLen. rspStr (snd (atRspReceive rspLen w)) =
                  map snd (take n (rx w)) @ NUL # drop (n + 1) (rspStr w) \<and>
                rx (snd (atRspReceive rspLen w)) = drop n (rx w)"
    by blast
  then show ?thesis by (simp add: r println_def log_event_def)
qed

subsection \<open>A read that follows a write of the timestamp\<close>

lemma deadline_stamp: "deadline (stamp w) = time w + 10000"
  by (simp add: deadline_def stamp_def log_event_def Milliseconds_def)

lemma stamp_fields:
  "time (stamp w) = time w" "msLastCmd (stamp w) = Milliseconds w"
  "baud (stamp w) = baud w" "trace (stamp w) = trace w @ [Stamp (Milliseconds w)]"
  by (simp_all add: stamp_def log_event_def)

lemma read_after_stamp:
  "\<exists>xs s. trace (snd (atRspReceive n (stamp w))) =
            trace w @ Stamp (Milliseconds w) # map Got xs @ [Printed s]"
  "msLastCmd (snd (atRspReceive n (stamp w))) = Milliseconds w"
  "time w \<le> time (snd (atRspReceive n (stamp w)))"
  "time (snd (atRspReceive n (stamp w))) \<le> time w + 10000"
proof -
  from reader_trace[of n "stamp w"]
  show "\<exists>xs s. trace (snd (atRspReceive n (stamp w))) =
            trace w @ Stamp (Milliseconds w) # map Got xs @ [Printed s]"
    by (simp add: stamp_fields)
  show "msLastCmd (snd (atRspReceive n (stamp w))) = Milliseconds w"
    by (simp add: reader_frame stamp_fields)
  from reader_time[of "stamp w" n]
  show "time w \<le> time (snd (atRspReceive n (stamp w)))"
    by (simp add: stamp_fields)
  from reader_time[of "stamp w" n]
  show "time (snd (atRspReceive n (stamp w))) \<le> time w + 10000"
    by (simp add: stamp_fields deadline_stamp)
qed

subsection \<open>strcmp and the test for OK\<close>

lemma of_char_NUL: "((of_char c :: nat) = 0) = (c = NUL)"
proof
  assume "(of_char c :: nat) = 0"
  then have "(of_char c :: nat) = of_char NUL" by simp
  then show "c = NUL" by (simp only: of_char_eq_iff)
qed simp

lemma strcmp_chars_zero:
  "NUL \<notin> set a \<Longrightarrow> NUL \<notin> set b \<Longrightarrow> (strcmp_chars a b = 0) = (a = b)"
proof (induction a b rule: strcmp_chars.induct)
  case (2 y ys)
  then show ?case using of_char_NUL[of y] by auto
next
  case (3 x xs)
  then show ?case using of_char_NUL[of x] by auto
qed auto

lemma cstr_no_NUL: "NUL \<notin> set (cstr a)"
  by (auto simp: cstr_def dest: set_takeWhileD)

lemma strcmp_zero: "(strcmp a b = 0) = (cstr a = cstr b)"
  by (simp add: strcmp_def strcmp_chars_zero cstr_no_NUL)

lemma cstr_OK_MSG: "cstr OK_MSG = ''OK''"
  by (simp add: cstr_def OK_MSG_def)

lemma cstr_ERR_MSG: "cstr ERR_MSG = ''ERROR''"
  by (simp add: cstr_def ERR_MSG_def)

lemma require_ok_content:
  "require_ok message w = (if cstr (rspStr w) = ''OK'' then w else exitFail message w)"
  by (simp add: require_ok_def strcmp_zero cstr_OK_MSG)

subsection \<open>Steps that do not touch the baud rate\<close>














subsection \<open>The bytes a step sends\<close>

















subsection \<open>The first command is never stale\<close>


subsection \<open>Concrete runs\<close>

text \<open>The definitions a concrete run is evaluated with.\<close>

lemmas run_defs =
  AtModeDefault_eq atCommandSend_eq atRspReceive_eq loop_result_def deadline_def
  Milliseconds_def println_def log_event_def delay_def Send_def SerialBreak_def stamp_def
  Speed_set_def exitFail_def cstr_def strcmp_def OK_MSG_def TIMEOUT_def rspStrSize_def
  strncpy_def baudRate_switch_def require_ok_def pick_rate_def send_own_def

text \<open>Eleven seconds after the last command, with \<^verbatim>\<open>OK\<close> from the exchange before still in
  the buffer.\<close>

definition w_idle :: world where
  "w_idle = \<lparr>time = 17001, rx = [], baud = 9600, msLastCmd = 6001,
              sendStr = [NUL, NUL, NUL, NUL, NUL, NUL, NUL, NUL, NUL, NUL],
              rspStr = [CHR ''O'', CHR ''K'', NUL, NUL, NUL, NUL, NUL, NUL, NUL, NUL],
              trace = []\<rparr>"

text \<open>The same, twelve seconds after, with a byte waiting in the port.\<close>

definition w_late :: world where
  "w_late = \<lparr>time = 18001, rx = [(17000, CHR ''X'')], baud = 9600, msLastCmd = 6001,
              sendStr = [NUL, NUL, NUL, NUL, NUL, NUL, NUL, NUL, NUL, NUL],
              rspStr = [CHR ''O'', CHR ''K'', NUL, NUL, NUL, NUL, NUL, NUL, NUL, NUL],
              trace = []\<rparr>"

text \<open>Just after a command has gone out; \<^verbatim>\<open>O\<close> and \<^verbatim>\<open>K\<close> arrive and nothing follows.\<close>

definition w_cut :: world where
  "w_cut = \<lparr>time = 6001, rx = [(6003, CHR ''O''), (6004, CHR ''K'')], baud = 9600,
             msLastCmd = 6001,
             sendStr = [NUL, NUL, NUL, NUL, NUL, NUL, NUL, NUL, NUL, NUL],
             rspStr = [NUL, NUL, NUL, NUL, NUL, NUL, NUL, NUL, NUL, NUL],
             trace = []\<rparr>"

text \<open>Just after a command has gone out; the radio answers \<^verbatim>\<open>ERROR\<close>.\<close>

definition w_err :: world where
  "w_err = \<lparr>time = 6001,
             rx = [(6003, CHR ''E''), (6004, CHR ''R''), (6005, CHR ''R''), (6006, CHR ''O''),
                   (6007, CHR ''R''), (6008, CR)],
             baud = 9600, msLastCmd = 6001,
             sendStr = [NUL, NUL, NUL, NUL, NUL, NUL, NUL, NUL, NUL, NUL],
             rspStr = [NUL, NUL, NUL, NUL, NUL, NUL, NUL, NUL, NUL, NUL],
             trace = []\<rparr>"

text \<open>Just after a command has gone out; the radio answers with twelve letters and a
  carriage return.\<close>

definition w_long :: world where
  "w_long = \<lparr>time = 6001,
              rx = [(6003, CHR ''a''), (6004, CHR ''b''), (6005, CHR ''c''), (6006, CHR ''d''),
                    (6007, CHR ''e''), (6008, CHR ''f''), (6009, CHR ''g''), (6010, CHR ''h''),
                    (6011, CHR ''i''), (6012, CHR ''j''), (6013, CHR ''k''), (6014, CHR ''l''),
                    (6015, CR)],
              baud = 9600, msLastCmd = 6001,
              sendStr = [NUL, NUL, NUL, NUL, NUL, NUL, NUL, NUL, NUL, NUL],
              rspStr = [NUL, NUL, NUL, NUL, NUL, NUL, NUL, NUL, NUL, NUL],
              trace = []\<rparr>"

text \<open>The same with nine letters before the carriage return: ten bytes, the size of the
  buffer.\<close>

definition w_nine :: world where
  "w_nine = \<lparr>time = 6001,
              rx = [(6003, CHR ''a''), (6004, CHR ''b''), (6005, CHR ''c''), (6006, CHR ''d''),
                    (6007, CHR ''e''), (6008, CHR ''f''), (6009, CHR ''g''), (6010, CHR ''h''),
                    (6011, CHR ''i''), (6012, CR)],
              baud = 9600, msLastCmd = 6001,
              sendStr = [NUL, NUL, NUL, NUL, NUL, NUL, NUL, NUL, NUL, NUL],
              rspStr = [NUL, NUL, NUL, NUL, NUL, NUL, NUL, NUL, NUL, NUL],
              trace = []\<rparr>"

text \<open>Just after a command has gone out; the radio answers \<^verbatim>\<open>OK\<close>.\<close>

definition w_ok :: world where
  "w_ok = \<lparr>time = 6001, rx = [(6003, CHR ''O''), (6004, CHR ''K''), (6005, CR)],
            baud = 9600, msLastCmd = 6001,
            sendStr = [NUL, NUL, NUL, NUL, NUL, NUL, NUL, NUL, NUL, NUL],
            rspStr = [NUL, NUL, NUL, NUL, NUL, NUL, NUL, NUL, NUL, NUL],
            trace = []\<rparr>"

text \<open>Three runs of \<open>DeviceSpeed\<close> from start-up, the port configured for 19200 (12345 in
  the third). The radio answers \<^verbatim>\<open>OK\<close> at the end of the break and to every command, but:
  in \<open>w_at_err\<close> it answers \<^verbatim>\<open>ERROR\<close> to \<^verbatim>\<open>AT\<close>; in \<open>w_exit_err\<close> it answers \<^verbatim>\<open>ERROR\<close> to
  \<^verbatim>\<open>ATCN\<close>.\<close>

definition w_at_err :: world where
  "w_at_err = \<lparr>time = 0,
     rx = [(6001, CHR ''O''), (6002, CHR ''K''), (6003, CR),
           (6006, CHR ''E''), (6007, CHR ''R''), (6008, CHR ''R''), (6009, CHR ''O''),
           (6010, CHR ''R''), (6011, CR),
           (6613, CHR ''O''), (6614, CHR ''K''), (6615, CR),
           (6617, CHR ''O''), (6618, CHR ''K''), (6619, CR),
           (6621, CHR ''O''), (6622, CHR ''K''), (6623, CR)],
     baud = 19200, msLastCmd = 0,
     sendStr = [NUL, NUL, NUL, NUL, NUL, NUL, NUL, NUL, NUL, NUL],
     rspStr = [NUL, NUL, NUL, NUL, NUL, NUL, NUL, NUL, NUL, NUL],
     trace = []\<rparr>"

definition w_exit_err :: world where
  "w_exit_err = \<lparr>time = 0,
     rx = [(6001, CHR ''O''), (6002, CHR ''K''), (6003, CR),
           (6006, CHR ''O''), (6007, CHR ''K''), (6008, CR),
           (6010, CHR ''O''), (6011, CHR ''K''), (6012, CR),
           (6014, CHR ''O''), (6015, CHR ''K''), (6016, CR),
           (6018, CHR ''E''), (6019, CHR ''R''), (6020, CHR ''R''), (6021, CHR ''O''),
           (6022, CHR ''R''), (6023, CR)],
     baud = 19200, msLastCmd = 0,
     sendStr = [NUL, NUL, NUL, NUL, NUL, NUL, NUL, NUL, NUL, NUL],
     rspStr = [NUL, NUL, NUL, NUL, NUL, NUL, NUL, NUL, NUL, NUL],
     trace = []\<rparr>"


lemma run_at_err:
  "trace (DeviceSpeed w_at_err) =
     [BaudSet 9600, Printed ''Forcing AT Mode with a Serial Break...'',
      BreakSet True, Delayed 6000, BreakSet False, Stamp 6000,
      Got (CHR ''O''), Got (CHR ''K''), Got CR, Printed ''OK'', Delayed 1,
      Stamp 6004, Sent ''AT'', Printed ''AT'', Sent [CR], Stamp 6004,
      Got (CHR ''E''), Got (CHR ''R''), Got (CHR ''R''), Got (CHR ''O''),
      Got (CHR ''R''), Got CR, Printed ''ERROR'',
      Printed ''Failed to verify AT Command Mode.'', Delayed 600,
      Sent ''ATBD 4'', Printed ''ATBD 4'', Sent [CR], Stamp 6611,
      Got (CHR ''O''), Got (CHR ''K''), Got CR, Printed ''OK'', Sent ''ATWR'',
      Printed ''ATWR'', Sent [CR], Stamp 6615, Got (CHR ''O''),
      Got (CHR ''K''), Got CR, Printed ''OK'', Sent ''ATCN'',
      Printed ''ATCN'', Sent [CR], Stamp 6619, Got (CHR ''O''),
      Got (CHR ''K''), Got CR, Printed ''OK'', BaudSet 19200]"
  by (simp add: DeviceSpeed_steps w_at_err_def run_defs)

lemma run_exit_err:
  "trace (DeviceSpeed w_exit_err) =
     [BaudSet 9600, Printed ''Forcing AT Mode with a Serial Break...'',
      BreakSet True, Delayed 6000, BreakSet False, Stamp 6000,
      Got (CHR ''O''), Got (CHR ''K''), Got CR, Printed ''OK'', Delayed 1,
      Stamp 6004, Sent ''AT'', Printed ''AT'', Sent [CR], Stamp 6004,
      Got (CHR ''O''), Got (CHR ''K''), Got CR, Printed ''OK'',
      Sent ''ATBD 4'', Printed ''ATBD 4'', Sent [CR], Stamp 6008,
      Got (CHR ''O''), Got (CHR ''K''), Got CR, Printed ''OK'', Sent ''ATWR'',
      Printed ''ATWR'', Sent [CR], Stamp 6012, Got (CHR ''O''),
      Got (CHR ''K''), Got CR, Printed ''OK'', Sent ''ATCN'',
      Printed ''ATCN'', Sent [CR], Stamp 6016, Got (CHR ''E''),
      Got (CHR ''R''), Got (CHR ''R''), Got (CHR ''O''), Got (CHR ''R''), Got CR,
      Printed ''ERROR'', Printed ''Failed to force exit AT Command Mode.'',
      Delayed 600, BaudSet 19200]"
  by (simp add: DeviceSpeed_steps w_exit_err_def run_defs)


section \<open>The claims\<close>

text \<open>
  C1. The claim holds of what the sketch sets out to do and fails on what it does. The
  host's rate is to be changed to the target value only once \<^verbatim>\<open>ATCN\<close> has been answered with
  \<^verbatim>\<open>OK\<close>. In \<open>w_exit_err\<close> the port is configured for 19200 and the radio answers \<^verbatim>\<open>ERROR\<close>
  to \<^verbatim>\<open>ATCN\<close>: \<open>exitFail\<close> prints the failure and returns, and the next statement sets the
  rate, 9600 since the start of the run, to 19200. The abort that is missing here is the
  one that is missing in C3.
\<close>

theorem rate_set_after_failed_exit:
  "baud w_exit_err = 19200 \<and>
   drop 36 (trace (DeviceSpeed w_exit_err)) =
     [Sent ''ATCN'', Printed ''ATCN'', Sent [CR], Stamp 6016,
      Got (CHR ''E''), Got (CHR ''R''), Got (CHR ''R''), Got (CHR ''O''), Got (CHR ''R''),
      Got CR, Printed ''ERROR'', Printed ''Failed to force exit AT Command Mode.'',
      Delayed 600, BaudSet 19200] \<and>
   bauds_of (trace (DeviceSpeed w_exit_err)) = [9600, 19200] \<and>
   baud (DeviceSpeed w_exit_err) = 19200"
proof -
  have "baud (DeviceSpeed w_exit_err) = 19200"
    by (simp add: DeviceSpeed_steps Speed_set_def log_event_def w_exit_err_def)
  moreover have "baud w_exit_err = 19200"
    by (simp add: w_exit_err_def)
  ultimately show ?thesis
    by (simp add: run_exit_err)
qed




text \<open>
  C3. The claim holds of what the sketch sets out to do and fails on what it does:
  \<open>exitFail\<close> prints the message and returns, and \<open>DeviceSpeed\<close> goes on. In \<open>w_at_err\<close> the
  radio answers \<^verbatim>\<open>ERROR\<close> to \<^verbatim>\<open>AT\<close>; the step is reported, and \<^verbatim>\<open>ATBD 4\<close>, \<^verbatim>\<open>ATWR\<close> and
  \<^verbatim>\<open>ATCN\<close> are sent all the same.
\<close>

theorem negative_step_does_not_abort:
  "console_of (trace (DeviceSpeed w_at_err)) =
     [''Forcing AT Mode with a Serial Break...'', ''OK'', ''AT'', ''ERROR'',
      ''Failed to verify AT Command Mode.'', ''ATBD 4'', ''OK'', ''ATWR'', ''OK'',
      ''ATCN'', ''OK''] \<and>
   sent_of (trace (DeviceSpeed w_at_err)) =
     ''AT'' @ [CR] @ ''ATBD 4'' @ [CR] @ ''ATWR'' @ [CR] @ ''ATCN'' @ [CR]"
  by (simp add: run_at_err)

text \<open>
  C4. As stated (once the buffer is full, further bytes are read and discarded, and the
  read is complete when the carriage return comes) the claim fails: \<^verbatim>\<open>CharGet\<close> is called
  only while \<^verbatim>\<open>rspIndex < rspLen - 1\<close>. In \<open>w_long\<close> the carriage return arrives 14 ms after
  the command; the read returns \<^verbatim>\<open>false\<close> with the first nine letters, and the other
  letters and the carriage return are still in the port.
\<close>

theorem full_buffer_discards_counterexample:
  "fst (atRspReceive rspStrSize w_long) = False \<and>
   cstr (rspStr (snd (atRspReceive rspStrSize w_long))) = ''abcdefghi'' \<and>
   rx (snd (atRspReceive rspStrSize w_long)) =
     [(6012, CHR ''j''), (6013, CHR ''k''), (6014, CHR ''l''), (6015, CR)] \<and>
   time (snd (atRspReceive rspStrSize w_long)) = 16001"
  by (simp add: w_long_def run_defs)

text \<open>
  C4, amended. If the buffer fills (\<open>rspLen - 1\<close> bytes stored) before a carriage return
  is seen, no further byte is read: what follows, a carriage return included, stays in
  the port, the loop polls until the deadline, and the read returns \<^verbatim>\<open>false\<close> (timed out)
  with the first \<open>rspLen - 1\<close> bytes as content.
\<close>

theorem full_buffer_stops_reading:
  assumes "Milliseconds w - msLastCmd w < TIMEOUT"
    and "rx w = pre @ rest"
    and "\<forall>p\<in>set pre. fst p < deadline w \<and> snd p \<noteq> CR"
    and "length pre + 1 = rspLen"
    and "rspLen \<le> length (rspStr w)"
  shows "fst (atRspReceive rspLen w) = False \<and>
         rx (snd (atRspReceive rspLen w)) = rest \<and>
         time (snd (atRspReceive rspLen w)) = deadline w \<and>
         rspStr (snd (atRspReceive rspLen w)) = map snd pre @ NUL # drop rspLen (rspStr w) \<and>
         cstr (rspStr (snd (atRspReceive rspLen w))) = cstr (map snd pre)"
  by (simp add: reader_full[OF assms] println_def log_event_def cstr_cut)

theorem full_buffer_stops_reading_witness:
  "fst (atRspReceive rspStrSize w_long) = False \<and>
   rx (snd (atRspReceive rspStrSize w_long)) =
     [(6012, CHR ''j''), (6013, CHR ''k''), (6014, CHR ''l''), (6015, CR)] \<and>
   time (snd (atRspReceive rspStrSize w_long)) = deadline w_long \<and>
   rspStr (snd (atRspReceive rspStrSize w_long)) = ''abcdefghi'' @ [NUL]"
proof -
  let ?pre = "[(6003, CHR ''a''), (6004, CHR ''b''), (6005, CHR ''c''), (6006, CHR ''d''),
               (6007, CHR ''e''), (6008, CHR ''f''), (6009, CHR ''g''), (6010, CHR ''h''),
               (6011::nat, CHR ''i'')]"
  let ?rest = "[(6012::nat, CHR ''j''), (6013, CHR ''k''), (6014, CHR ''l''), (6015, CR)]"
  have 1: "Milliseconds w_long - msLastCmd w_long < TIMEOUT"
    by (simp add: w_long_def Milliseconds_def TIMEOUT_def)
  have 2: "rx w_long = ?pre @ ?rest"
    by (simp add: w_long_def)
  have 3: "\<forall>p\<in>set ?pre. fst p < deadline w_long \<and> snd p \<noteq> CR"
    by (simp add: w_long_def deadline_def Milliseconds_def)
  have 4: "length ?pre + 1 = rspStrSize"
    by (simp add: rspStrSize_def)
  have 5: "rspStrSize \<le> length (rspStr w_long)"
    by (simp add: w_long_def rspStrSize_def)
  from full_buffer_stops_reading[OF 1 2 3 4 5]
  show ?thesis by (simp add: w_long_def rspStrSize_def)
qed

text \<open>
  C5. As stated (the dispatch is rejected with a stale-session error) the claim fails:
  \<open>atCommandSend\<close> returns nothing and reports nothing. In the state \<open>w_late\<close>, twelve
  seconds after the last command, the call prints nothing, leaves \<^verbatim>\<open>OK\<close> in the buffer,
  and the caller's test for \<^verbatim>\<open>OK\<close> passes.
\<close>

theorem stale_dispatch_error_counterexample:
  "TIMEOUT < Milliseconds w_late - msLastCmd w_late \<and>
   console_of (trace (atCommandSend (''ATCN'' @ [NUL]) rspStrSize w_late)) =
     console_of (trace w_late) \<and>
   strcmp (rspStr (atCommandSend (''ATCN'' @ [NUL]) rspStrSize w_late)) OK_MSG = 0"
  by (simp add: w_late_def run_defs)

text \<open>
  C5, amended. When more than \<open>TIMEOUT\<close> (10000) milliseconds have passed since
  \<open>msLastCmd\<close>, \<open>atCommandSend\<close> returns at once and changes nothing: no byte is sent, the
  port is not read, nothing is printed, and the timestamp and the buffer are as before.
\<close>

theorem stale_dispatch_sends_nothing:
  assumes "TIMEOUT < Milliseconds w - msLastCmd w"
  shows "atCommandSend cmd rspLen w = w \<and>
         sent_of (trace (atCommandSend cmd rspLen w)) = sent_of (trace w)"
  using assms by (simp add: atCommandSend_eq)

theorem stale_dispatch_sends_nothing_witness:
  "TIMEOUT < Milliseconds w_late - msLastCmd w_late \<and>
   atCommandSend (''ATCN'' @ [NUL]) rspStrSize w_late = w_late \<and>
   sent_of (trace (atCommandSend (''ATCN'' @ [NUL]) rspStrSize w_late)) = []"
proof -
  have h: "TIMEOUT < Milliseconds w_late - msLastCmd w_late"
    by (simp add: w_late_def TIMEOUT_def Milliseconds_def)
  have "sent_of (trace w_late) = []"
    by (simp add: w_late_def)
  with stale_dispatch_sends_nothing[OF h, of "''ATCN'' @ [NUL]" rspStrSize] h
  show ?thesis by simp
qed

text \<open>
  C6. As stated (a carriage return within the buffer's capacity gives a complete read)
  the claim fails at the boundary. In \<open>w_nine\<close> nine letters and a carriage return arrive,
  ten bytes for a buffer of ten; the nine letters fit, yet the carriage return is never
  read and the read times out.
\<close>

theorem terminator_within_capacity_counterexample:
  "fst (atRspReceive rspStrSize w_nine) = False \<and>
   cstr (rspStr (snd (atRspReceive rspStrSize w_nine))) = ''abcdefghi'' \<and>
   rx (snd (atRspReceive rspStrSize w_nine)) = [(6012, CR)]"
  by (simp add: w_nine_def run_defs)

text \<open>
  C6, amended. When the first carriage return arrives before the deadline and at most
  \<open>rspLen - 2\<close> bytes precede it, the read returns \<^verbatim>\<open>true\<close> (complete) and the buffer holds
  exactly the bytes before the carriage return, NUL-terminated; the carriage return is
  not stored. When no carriage return arrives before the deadline, the read returns
  \<^verbatim>\<open>false\<close> (timed out) at the deadline, and the buffer holds the bytes stored so far, a
  prefix of the input shorter than \<open>rspLen\<close>, NUL-terminated: at least the empty string.
\<close>

theorem response_reader_outcomes:
  "(Milliseconds w - msLastCmd w < TIMEOUT \<and> rx w = pre @ (t, CR) # rest \<and>
    (\<forall>p\<in>set pre. fst p < deadline w \<and> snd p \<noteq> CR) \<and> t < deadline w \<and>
    length pre + 1 < rspLen \<and> rspLen \<le> length (rspStr w) \<longrightarrow>
      fst (atRspReceive rspLen w) = True \<and>
      rspStr (snd (atRspReceive rspLen w)) =
        map snd pre @ NUL # drop (length pre + 1) (rspStr w) \<and>
      cstr (rspStr (snd (atRspReceive rspLen w))) = cstr (map snd pre) \<and>
      rx (snd (atRspReceive rspLen w)) = rest) \<and>
   ((\<forall>p\<in>set (rx w). snd p = CR \<longrightarrow> deadline w \<le> fst p) \<and>
    0 < rspLen \<and> rspLen \<le> length (rspStr w) \<longrightarrow>
      fst (atRspReceive rspLen w) = False \<and>
      time (snd (atRspReceive rspLen w)) = deadline w \<and>
      (\<exists>n<rspLen. rspStr (snd (atRspReceive rspLen w)) =
                   map snd (take n (rx w)) @ NUL # drop (n + 1) (rspStr w) \<and>
                 rx (snd (atRspReceive rspLen w)) = drop n (rx w)))"
proof (intro conjI impI)
  assume a: "Milliseconds w - msLastCmd w < TIMEOUT \<and> rx w = pre @ (t, CR) # rest \<and>
    (\<forall>p\<in>set pre. fst p < deadline w \<and> snd p \<noteq> CR) \<and> t < deadline w \<and>
    length pre + 1 < rspLen \<and> rspLen \<le> length (rspStr w)"
  then have r: "atRspReceive rspLen w =
     (True, println (map snd pre @ [NUL])
        (w\<lparr>time := foldl max (time w) (map fst pre @ [t]), rx := rest,
           rspStr := map snd pre @ NUL # drop (length pre + 1) (rspStr w),
           trace := trace w @ map Got (map snd pre @ [CR])\<rparr>))"
    by (intro reader_complete) auto
  show "fst (atRspReceive rspLen w) = True"
    by (simp add: r)
  show "rspStr (snd (atRspReceive rspLen w)) =
        map snd pre @ NUL # drop (length pre + 1) (rspStr w)"
    by (simp add: r println_def log_event_def)
  show "cstr (rspStr (snd (atRspReceive rspLen w))) = cstr (map snd pre)"
    by (simp add: r println_def log_event_def cstr_cut)
  show "rx (snd (atRspReceive rspLen w)) = rest"
    by (simp add: r println_def log_event_def)
next
  assume b: "(\<forall>p\<in>set (rx w). snd p = CR \<longrightarrow> deadline w \<le> fst p) \<and>
    0 < rspLen \<and> rspLen \<le> length (rspStr w)"
  then have t: "fst (atRspReceive rspLen w) = False \<and>
         time (snd (atRspReceive rspLen w)) = deadline w \<and>
         (\<exists>n<rspLen. rspStr (snd (atRspReceive rspLen w)) =
                  map snd (take n (rx w)) @ NUL # drop (n + 1) (rspStr w) \<and>
                rx (snd (atRspReceive rspLen w)) = drop n (rx w))"
    by (intro reader_timeout) auto
  from t show "fst (atRspReceive rspLen w) = False" by simp
  from t show "time (snd (atRspReceive rspLen w)) = deadline w" by simp
  from t show "\<exists>n<rspLen. rspStr (snd (atRspReceive rspLen w)) =
                   map snd (take n (rx w)) @ NUL # drop (n + 1) (rspStr w) \<and>
                 rx (snd (atRspReceive rspLen w)) = drop n (rx w)" by simp
qed

theorem response_reader_outcomes_witness:
  "fst (atRspReceive rspStrSize w_err) = True \<and>
   rspStr (snd (atRspReceive rspStrSize w_err)) = ''ERROR'' @ [NUL, NUL, NUL, NUL, NUL] \<and>
   rx (snd (atRspReceive rspStrSize w_err)) = [] \<and>
   fst (atRspReceive rspStrSize w_cut) = False \<and>
   time (snd (atRspReceive rspStrSize w_cut)) = 16001"
proof -
  let ?pre = "[(6003, CHR ''E''), (6004, CHR ''R''), (6005, CHR ''R''), (6006, CHR ''O''),
               (6007::nat, CHR ''R'')]"
  have a: "Milliseconds w_err - msLastCmd w_err < TIMEOUT \<and>
           rx w_err = ?pre @ (6008, CR) # [] \<and>
           (\<forall>p\<in>set ?pre. fst p < deadline w_err \<and> snd p \<noteq> CR) \<and> 6008 < deadline w_err \<and>
           length ?pre + 1 < rspStrSize \<and> rspStrSize \<le> length (rspStr w_err)"
    by (simp add: w_err_def Milliseconds_def TIMEOUT_def deadline_def rspStrSize_def)
  have b: "(\<forall>p\<in>set (rx w_cut). snd p = CR \<longrightarrow> deadline w_cut \<le> fst p) \<and>
           0 < rspStrSize \<and> rspStrSize \<le> length (rspStr w_cut)"
    by (simp add: w_cut_def rspStrSize_def)
  have d: "deadline w_cut = 16001"
    by (simp add: w_cut_def deadline_def Milliseconds_def)
  from response_reader_outcomes[of w_err ?pre 6008 "[]" rspStrSize] a
  have 1: "fst (atRspReceive rspStrSize w_err) = True \<and>
           rspStr (snd (atRspReceive rspStrSize w_err)) =
             map snd ?pre @ NUL # drop (length ?pre + 1) (rspStr w_err) \<and>
           rx (snd (atRspReceive rspStrSize w_err)) = []"
    by blast
  from response_reader_outcomes[of w_cut _ _ _ rspStrSize] b
  have 2: "fst (atRspReceive rspStrSize w_cut) = False \<and>
           time (snd (atRspReceive rspStrSize w_cut)) = deadline w_cut"
    by blast
  from 1 2 d show ?thesis by (simp add: w_err_def)
qed

text \<open>
  C7. As stated (any timeout is classified negative) the claim fails: the value
  \<open>atRspReceive\<close> returns is never looked at. In \<open>w_cut\<close> the bytes \<^verbatim>\<open>O\<close>, \<^verbatim>\<open>K\<close> arrive
  and no carriage return follows; the read times out, and the test for \<^verbatim>\<open>OK\<close> passes.
\<close>

theorem timeout_classified_ok_counterexample:
  "fst (atRspReceive rspStrSize w_cut) = False \<and>
   strcmp (rspStr (snd (atRspReceive rspStrSize w_cut))) OK_MSG = 0 \<and>
   require_ok ''Failed to verify AT Command Mode.'' (snd (atRspReceive rspStrSize w_cut)) =
     snd (atRspReceive rspStrSize w_cut)"
  by (simp add: w_cut_def run_defs)

text \<open>
  C7, amended. The test \<open>DeviceSpeed\<close> makes after every exchange passes exactly when the
  string in the buffer is \<^verbatim>\<open>OK\<close>, whatever \<open>atRspReceive\<close> returned: \<^verbatim>\<open>ERROR\<close> and every
  other content fail it, and so does a read that timed out, unless the bytes it had
  stored are exactly \<^verbatim>\<open>OK\<close>.
\<close>

theorem classified_by_content:
  "(strcmp (rspStr w) OK_MSG = 0) = (cstr (rspStr w) = ''OK'') \<and>
   (cstr (rspStr w) = cstr ERR_MSG \<longrightarrow> strcmp (rspStr w) OK_MSG \<noteq> 0) \<and>
   require_ok message (snd (atRspReceive rspLen w0)) =
     (if cstr (rspStr (snd (atRspReceive rspLen w0))) = ''OK''
      then snd (atRspReceive rspLen w0)
      else exitFail message (snd (atRspReceive rspLen w0)))"
  by (simp add: strcmp_zero cstr_OK_MSG cstr_ERR_MSG require_ok_content)

theorem classified_by_content_witness:
  "cstr (rspStr (snd (atRspReceive rspStrSize w_err))) = cstr ERR_MSG \<and>
   strcmp (rspStr (snd (atRspReceive rspStrSize w_err))) OK_MSG \<noteq> 0 \<and>
   fst (atRspReceive rspStrSize w_err) = True"
proof -
  have c: "cstr (rspStr (snd (atRspReceive rspStrSize w_err))) = cstr ERR_MSG"
    by (simp add: w_err_def run_defs ERR_MSG_def)
  have t: "fst (atRspReceive rspStrSize w_err) = True"
    by (simp add: w_err_def run_defs)
  from classified_by_content[of "snd (atRspReceive rspStrSize w_err)"] c t
  show ?thesis by (simp add: cstr_ERR_MSG)
qed

text \<open>
  C8. As stated (the dispatcher returns the response and the completion status) the claim
  fails: \<open>atCommandSend\<close> is \<^verbatim>\<open>void\<close> and drops what \<open>atRspReceive\<close> returns. From \<open>w_ok\<close>
  the read inside the call is complete and from \<open>w_cut\<close> it times out, and the two calls
  hand the same buffer back.
\<close>

theorem dispatch_status_counterexample:
  "fst (atRspReceive rspStrSize
         (stamp (Send [CR, NUL] (println (''AT'' @ [NUL]) (Send (''AT'' @ [NUL]) w_ok))))) = True \<and>
   fst (atRspReceive rspStrSize
         (stamp (Send [CR, NUL] (println (''AT'' @ [NUL]) (Send (''AT'' @ [NUL]) w_cut))))) = False \<and>
   rspStr (atCommandSend (''AT'' @ [NUL]) rspStrSize w_ok) =
     rspStr (atCommandSend (''AT'' @ [NUL]) rspStrSize w_cut)"
  by (simp add: w_ok_def w_cut_def run_defs)

text \<open>
  C8, amended. A dispatch that is not stale sends the command text and then exactly one
  carriage return, then sets \<open>msLastCmd\<close> to the current time, then runs \<open>atRspReceive\<close>,
  whose deadline is then 10000 ms after that time, and hands back the state the read
  leaves, with the response in the buffer; the completion status is dropped.
\<close>

theorem dispatch_sends_then_reads:
  assumes "\<not> TIMEOUT < Milliseconds w - msLastCmd w"
  shows "(\<exists>xs s. trace (atCommandSend cmd rspLen w) =
            trace w @ [Sent (cstr cmd), Printed (cstr cmd), Sent [CR], Stamp (Milliseconds w)]
                    @ map Got xs @ [Printed s]) \<and>
         sent_of (trace (atCommandSend cmd rspLen w)) = sent_of (trace w) @ cstr cmd @ [CR] \<and>
         msLastCmd (atCommandSend cmd rspLen w) = Milliseconds w \<and>
         time (atCommandSend cmd rspLen w) \<le> time w + 10000 \<and>
         deadline (stamp (Send [CR, NUL] (println cmd (Send cmd w)))) = time w + 10000 \<and>
         atCommandSend cmd rspLen w =
           snd (atRspReceive rspLen (stamp (Send [CR, NUL] (println cmd (Send cmd w)))))"
proof -
  let ?w3 = "Send [CR, NUL] (println cmd (Send cmd w))"
  have e: "atCommandSend cmd rspLen w = snd (atRspReceive rspLen (stamp ?w3))"
    using assms by (simp add: atCommandSend_eq)
  have f: "time ?w3 = time w" "Milliseconds ?w3 = Milliseconds w"
    "trace ?w3 = trace w @ [Sent (cstr cmd), Printed (cstr cmd), Sent [CR]]"
    by (simp_all add: Send_def println_def log_event_def Milliseconds_def cstr_def)
  from read_after_stamp(1)[of rspLen ?w3] obtain xs s where
    t: "trace (atCommandSend cmd rspLen w) =
          trace w @ [Sent (cstr cmd), Printed (cstr cmd), Sent [CR], Stamp (Milliseconds w)]
                  @ map Got xs @ [Printed s]"
    by (auto simp: e f)
  then have s: "sent_of (trace (atCommandSend cmd rspLen w)) =
                sent_of (trace w) @ cstr cmd @ [CR]"
    by (simp add: sent_of_append sent_of_Got)
  from t have "\<exists>xs s. trace (atCommandSend cmd rspLen w) =
            trace w @ [Sent (cstr cmd), Printed (cstr cmd), Sent [CR], Stamp (Milliseconds w)]
                    @ map Got xs @ [Printed s]"
    by blast
  moreover have "msLastCmd (atCommandSend cmd rspLen w) = Milliseconds w"
    using read_after_stamp(2)[of rspLen ?w3] by (simp add: e f)
  moreover have "time (atCommandSend cmd rspLen w) \<le> time w + 10000"
    using read_after_stamp(4)[of rspLen ?w3] by (simp add: e f)
  moreover have "deadline (stamp ?w3) = time w + 10000"
    by (simp add: deadline_stamp f)
  ultimately show ?thesis using s e by simp
qed

theorem dispatch_sends_then_reads_witness:
  "\<not> TIMEOUT < Milliseconds w_ok - msLastCmd w_ok \<and>
   sent_of (trace (atCommandSend (''ATWR'' @ [NUL]) rspStrSize w_ok)) = ''ATWR'' @ [CR] \<and>
   msLastCmd (atCommandSend (''ATWR'' @ [NUL]) rspStrSize w_ok) = 6001 \<and>
   time (atCommandSend (''ATWR'' @ [NUL]) rspStrSize w_ok) \<le> 16001"
proof -
  have h: "\<not> TIMEOUT < Milliseconds w_ok - msLastCmd w_ok"
    by (simp add: w_ok_def Milliseconds_def TIMEOUT_def)
  have m: "Milliseconds w_ok = 6001" "time w_ok = 6001" "sent_of (trace w_ok) = []"
    "cstr (''ATWR'' @ [NUL]) = ''ATWR''"
    by (simp_all add: w_ok_def Milliseconds_def cstr_def)
  from dispatch_sends_then_reads[OF h, of "''ATWR'' @ [NUL]" rspStrSize]
  have "sent_of (trace (atCommandSend (''ATWR'' @ [NUL]) rspStrSize w_ok)) =
          sent_of (trace w_ok) @ cstr (''ATWR'' @ [NUL]) @ [CR] \<and>
        msLastCmd (atCommandSend (''ATWR'' @ [NUL]) rspStrSize w_ok) = Milliseconds w_ok \<and>
        time (atCommandSend (''ATWR'' @ [NUL]) rspStrSize w_ok) \<le> time w_ok + 10000"
    by blast
  with h m show ?thesis
    by simp
qed

text \<open>
  C9. Every run of \<open>AtModeDefault\<close> is this sequence and nothing else: the break is
  asserted, held for 6000 ms and released; \<open>msLastCmd\<close> is set to the current time; one
  \<open>atRspReceive\<close> runs on the state so reached, with its deadline 10000 ms on; then,
  whatever that read returned and whatever it left in the buffer, 1 ms passes and
  \<open>msLastCmd\<close> is set to the current time once more. The state returned is the one the
  read left, but for the clock, the timestamp and these two entries of the log: buffer and
  port are as the read left them, and \<open>AtModeDefault\<close> prints nothing after the read. It
  has no other outcome. (The test of the buffer that comes next in \<open>DeviceSpeed\<close> is a
  statement of \<open>DeviceSpeed\<close>, not of \<open>AtModeDefault\<close>.)
\<close>

theorem mode_entry_sequence:
  "(let w5 = w\<lparr>time := time w + 6000, msLastCmd := of_nat (time w + 6000),
                 trace := trace w @ [Printed ''Forcing AT Mode with a Serial Break...'',
                                     BreakSet True, Delayed 6000, BreakSet False,
                                     Stamp (of_nat (time w + 6000))]\<rparr>;
        r = atRspReceive rspStrSize w5
    in AtModeDefault w =
         (snd r)\<lparr>time := time (snd r) + 1, msLastCmd := of_nat (time (snd r) + 1),
                  trace := trace (snd r) @ [Delayed 1, Stamp (of_nat (time (snd r) + 1))]\<rparr> \<and>
       deadline w5 = time w + 16000 \<and>
       (\<exists>xs s. trace (snd r) = trace w5 @ map Got xs @ [Printed s]) \<and>
       time w + 6000 \<le> time (snd r) \<and> time (snd r) \<le> time w + 16000 \<and>
       since (snd r) (AtModeDefault w) = [Delayed 1, Stamp (Milliseconds (AtModeDefault w))] \<and>
       console_of (since (snd r) (AtModeDefault w)) = [] \<and>
       rspStr (AtModeDefault w) = rspStr (snd r) \<and>
       rx (AtModeDefault w) = rx (snd r) \<and>
       msLastCmd (AtModeDefault w) = Milliseconds (AtModeDefault w))"
proof -
  let ?w4 = "SerialBreak False (delay 6000 (SerialBreak True
               (println ''Forcing AT Mode with a Serial Break...'' w)))"
  let ?w5 = "w\<lparr>time := time w + 6000, msLastCmd := of_nat (time w + 6000),
                 trace := trace w @ [Printed ''Forcing AT Mode with a Serial Break...'',
                                     BreakSet True, Delayed 6000, BreakSet False,
                                     Stamp (of_nat (time w + 6000))]\<rparr>"
  let ?r = "atRspReceive rspStrSize ?w5"
  have w5: "stamp ?w4 = ?w5"
    by (simp add: stamp_def SerialBreak_def delay_def println_def log_event_def
                  Milliseconds_def cstr_def)
  have e: "AtModeDefault w = stamp (delay 1 (snd ?r))"
    by (simp only: AtModeDefault_eq w5)
  have 1: "AtModeDefault w =
         (snd ?r)\<lparr>time := time (snd ?r) + 1, msLastCmd := of_nat (time (snd ?r) + 1),
                  trace := trace (snd ?r) @ [Delayed 1, Stamp (of_nat (time (snd ?r) + 1))]\<rparr>"
    unfolding e by (simp add: stamp_def delay_def log_event_def Milliseconds_def)
  have 2: "deadline ?w5 = time w + 16000"
    by (simp add: deadline_def Milliseconds_def)
  have 3: "\<exists>xs s. trace (snd ?r) = trace ?w5 @ map Got xs @ [Printed s]"
    by (rule reader_trace)
  have 4: "time w + 6000 \<le> time (snd ?r) \<and> time (snd ?r) \<le> time w + 16000"
    using reader_time[of ?w5 rspStrSize] unfolding 2 by simp
  have 5: "since (snd ?r) (AtModeDefault w) =
             [Delayed 1, Stamp (Milliseconds (AtModeDefault w))]"
    by (rule since_append) (simp add: 1 Milliseconds_def)
  have 6: "rspStr (AtModeDefault w) = rspStr (snd ?r)" "rx (AtModeDefault w) = rx (snd ?r)"
    "msLastCmd (AtModeDefault w) = Milliseconds (AtModeDefault w)"
    by (simp_all add: 1 Milliseconds_def)
  have 7: "console_of (since (snd ?r) (AtModeDefault w)) = []"
    unfolding 5 by simp
  from 1 2 3 4 5 6 7 show ?thesis
    unfolding Let_def by blast
qed

text \<open>
  C10. When \<open>atCommandSend\<close> finds that more than \<open>TIMEOUT\<close> milliseconds have passed since
  \<open>msLastCmd\<close>, it returns without writing to the response buffer: the buffer holds what
  the exchange before left there. If that was \<^verbatim>\<open>OK\<close>, the test that \<open>DeviceSpeed\<close> makes
  after the call passes, as after an exchange answered with \<^verbatim>\<open>OK\<close>.
\<close>

theorem stale_dispatch_keeps_buffer:
  assumes "TIMEOUT < Milliseconds w - msLastCmd w"
  shows "rspStr (atCommandSend cmd rspLen w) = rspStr w \<and>
         (cstr (rspStr w) = ''OK'' \<longrightarrow>
            strcmp (rspStr (atCommandSend cmd rspLen w)) OK_MSG = 0 \<and>
            require_ok message (atCommandSend cmd rspLen w) = atCommandSend cmd rspLen w)"
  using assms by (simp add: atCommandSend_eq require_ok_content strcmp_zero cstr_OK_MSG)

theorem stale_dispatch_keeps_buffer_witness:
  "TIMEOUT < Milliseconds w_idle - msLastCmd w_idle \<and>
   cstr (rspStr w_idle) = ''OK'' \<and>
   rspStr (atCommandSend (''ATWR'' @ [NUL]) rspStrSize w_idle) = rspStr w_idle \<and>
   strcmp (rspStr (atCommandSend (''ATWR'' @ [NUL]) rspStrSize w_idle)) OK_MSG = 0 \<and>
   require_ok ''Failed to write to firmware.''
       (atCommandSend (''ATWR'' @ [NUL]) rspStrSize w_idle) =
     atCommandSend (''ATWR'' @ [NUL]) rspStrSize w_idle"
proof -
  have h: "TIMEOUT < Milliseconds w_idle - msLastCmd w_idle"
    by (simp add: w_idle_def TIMEOUT_def Milliseconds_def)
  have c: "cstr (rspStr w_idle) = ''OK''"
    by (simp add: w_idle_def cstr_def)
  from stale_dispatch_keeps_buffer[OF h, of "''ATWR'' @ [NUL]" rspStrSize
         "''Failed to write to firmware.''"] h c
  show ?thesis by (simp add: strcmp_zero cstr_OK_MSG)
qed

end
